theory Spec2Isabelle
  imports Main "HOL-Library.Word" "HOL-Library.Sublist"
begin

section \<open>The ThingSpeak client of \<^verbatim>\<open>src/ThingSpeak.h\<close>\<close>

text \<open>
  The class \<^verbatim>\<open>ThingSpeak\<close> stages one pending channel update (eight field strings and
  some metadata), encodes it as an HTTP form body, posts it through an HTTP request object
  and interprets the response; its read operations issue GET requests and remember the
  last status code. The embedding below follows the member functions one by one.

  \<^item> \<^verbatim>\<open>std::string\<close> is \<open>string\<close>, a list of bytes; \<open>length\<close> is \<^verbatim>\<open>length()\<close>.
  \<^item> \<^verbatim>\<open>int\<close> values that are only stored, compared and returned (status codes) are
    \<open>int\<close>; the one \<^verbatim>\<open>int\<close> the code does arithmetic on, \<^verbatim>\<open>contentLen\<close>, is a
    32-bit word, so that its additions wrap as they do on the 32-bit targets of Mbed OS.
  \<^item> \<^verbatim>\<open>unsigned int field\<close> and \<^verbatim>\<open>unsigned long channelNumber\<close> are \<open>nat\<close>: the code
    only compares them and prints them in decimal.
  \<^item> A \<^verbatim>\<open>float\<close> member is its 32-bit pattern: the code stores the three of them and
    never computes with them.
  \<^item> The HTTP library (\<^verbatim>\<open>http_request.h\<close>) is not part of the repository. A request is
    the record of what the code hands to it, and the transport is a function from the
    request to the response (status code and body text) that \<^verbatim>\<open>send\<close> yields. A
    transport failure is a negative status code. Every operation returns, beside its
    result and the new object state, the list of requests it has sent.
  \<^item> An exception of the C++ library (\<^verbatim>\<open>std::stoi\<close>) is the \<open>Inl\<close> of a sum.
\<close>

subsection \<open>Constants\<close>

abbreviation FIELDNUM_MIN :: nat where "FIELDNUM_MIN \<equiv> 1"
abbreviation FIELDNUM_MAX :: nat where "FIELDNUM_MAX \<equiv> 8"
abbreviation FIELDLENGTH_MAX :: nat where "FIELDLENGTH_MAX \<equiv> 255"

abbreviation OK_SUCCESS :: int where "OK_SUCCESS \<equiv> 200"
abbreviation ERR_BADAPIKEY :: int where "ERR_BADAPIKEY \<equiv> 400"
abbreviation ERR_BADURL :: int where "ERR_BADURL \<equiv> 404"
abbreviation ERR_OUT_OF_RANGE :: int where "ERR_OUT_OF_RANGE \<equiv> - 101"
abbreviation ERR_INVALID_FIELD_NUM :: int where "ERR_INVALID_FIELD_NUM \<equiv> - 201"
abbreviation ERR_SETFIELD_NOT_CALLED :: int where "ERR_SETFIELD_NOT_CALLED \<equiv> - 210"
abbreviation ERR_CONNECT_FAILED :: int where "ERR_CONNECT_FAILED \<equiv> - 301"
abbreviation ERR_UNEXPECTED_FAIL :: int where "ERR_UNEXPECTED_FAIL \<equiv> - 302"
abbreviation ERR_BAD_RESPONSE :: int where "ERR_BAD_RESPONSE \<equiv> - 303"
abbreviation ERR_TIMEOUT :: int where "ERR_TIMEOUT \<equiv> - 304"
abbreviation ERR_NOT_INSERTED :: int where "ERR_NOT_INSERTED \<equiv> - 401"

abbreviation TS_USER_AGENT :: string where "TS_USER_AGENT \<equiv> ''tslib-mbed/2.0.0 (mbed)''"

text \<open>The bit pattern of the quiet NaN that \<^verbatim>\<open>NAN\<close> denotes.\<close>

type_synonym float = "32 word"

abbreviation NAN :: float where "NAN \<equiv> 0x7FC00000"

subsection \<open>The object state\<close>

text \<open>
  The data members of the class, without the socket and network interface pointers, which
  stand behind the transport. \<^verbatim>\<open>string nextWriteField[8]\<close> is a list; that it has eight
  elements is part of the invariant \<open>buffer_inv\<close> below.
\<close>

record ThingSpeak =
  nextWriteField :: "string list"
  nextWriteLatitude :: float
  nextWriteLongitude :: float
  nextWriteElevation :: float
  lastReadStatus :: int
  nextWriteStatus :: string
  nextWriteTwitter :: string
  nextWriteTweet :: string
  nextWriteCreatedAt :: string

text \<open>\<^verbatim>\<open>resetWriteFields\<close>: the loop over the eight slots, then the other members.\<close>

definition resetWriteFields :: "ThingSpeak \<Rightarrow> ThingSpeak" where
  "resetWriteFields ts =
     (fold (\<lambda>iField t. t\<lparr>nextWriteField := (nextWriteField t)[iField := '''']\<rparr>)
        [0..<FIELDNUM_MAX] ts)
     \<lparr>nextWriteLatitude := NAN,
      nextWriteLongitude := NAN,
      nextWriteElevation := NAN,
      nextWriteStatus := '''',
      nextWriteTwitter := '''',
      nextWriteTweet := '''',
      nextWriteCreatedAt := ''''\<rparr>"

text \<open>
  The constructor: eight default-constructed (empty) strings, then \<^verbatim>\<open>resetWriteFields\<close>
  and the status. The floats are uninitialised before the reset overwrites them; any
  value does here.
\<close>

definition ThingSpeak_new :: ThingSpeak where
  "ThingSpeak_new =
     (resetWriteFields
        \<lparr>nextWriteField = replicate FIELDNUM_MAX '''',
         nextWriteLatitude = 0, nextWriteLongitude = 0, nextWriteElevation = 0,
         lastReadStatus = 0,
         nextWriteStatus = '''', nextWriteTwitter = '''', nextWriteTweet = '''',
         nextWriteCreatedAt = ''''\<rparr>)
     \<lparr>lastReadStatus := OK_SUCCESS\<rparr>"

text \<open>\<^verbatim>\<open>begin\<close> resets the buffer and the status and always returns true.\<close>

definition begin_ts :: "ThingSpeak \<Rightarrow> bool \<times> ThingSpeak" where
  "begin_ts ts = (True, (resetWriteFields ts)\<lparr>lastReadStatus := OK_SUCCESS\<rparr>)"

text \<open>
  The invariant of the pending update: eight slots, and no staged string longer than 255
  bytes. The setters keep it (they are the only writers of these private members).
\<close>

definition buffer_inv :: "ThingSpeak \<Rightarrow> bool" where
  "buffer_inv ts \<longleftrightarrow>
     length (nextWriteField ts) = FIELDNUM_MAX \<and>
     list_all (\<lambda>v. length v \<le> FIELDLENGTH_MAX) (nextWriteField ts) \<and>
     length (nextWriteStatus ts) \<le> FIELDLENGTH_MAX \<and>
     length (nextWriteTwitter ts) \<le> FIELDLENGTH_MAX \<and>
     length (nextWriteTweet ts) \<le> FIELDLENGTH_MAX \<and>
     length (nextWriteCreatedAt ts) \<le> FIELDLENGTH_MAX"

text \<open>Something is staged: a field, the status, twitter, tweet or created-at is not empty.\<close>

definition any_staged :: "ThingSpeak \<Rightarrow> bool" where
  "any_staged ts \<longleftrightarrow>
     list_ex (\<lambda>v. 0 < length v) (nextWriteField ts) \<or>
     0 < length (nextWriteStatus ts) \<or>
     0 < length (nextWriteTwitter ts) \<or>
     0 < length (nextWriteTweet ts) \<or>
     0 < length (nextWriteCreatedAt ts)"

subsection \<open>The setters\<close>

text \<open>\<^verbatim>\<open>int setField(unsigned int field, string value)\<close>, lines 316 to 325.\<close>

definition setField :: "nat \<Rightarrow> string \<Rightarrow> ThingSpeak \<Rightarrow> int \<times> ThingSpeak" where
  "setField field val ts =
     (if field < FIELDNUM_MIN \<or> field > FIELDNUM_MAX then (ERR_INVALID_FIELD_NUM, ts)
      else if length val > FIELDLENGTH_MAX then (ERR_OUT_OF_RANGE, ts)
      else (OK_SUCCESS, ts\<lparr>nextWriteField := (nextWriteField ts)[field - 1 := val]\<rparr>))"

definition setLatitude :: "float \<Rightarrow> ThingSpeak \<Rightarrow> int \<times> ThingSpeak" where
  "setLatitude latitude ts = (OK_SUCCESS, ts\<lparr>nextWriteLatitude := latitude\<rparr>)"

definition setLongitude :: "float \<Rightarrow> ThingSpeak \<Rightarrow> int \<times> ThingSpeak" where
  "setLongitude longitude ts = (OK_SUCCESS, ts\<lparr>nextWriteLongitude := longitude\<rparr>)"

definition setElevation :: "float \<Rightarrow> ThingSpeak \<Rightarrow> int \<times> ThingSpeak" where
  "setElevation elevation ts = (OK_SUCCESS, ts\<lparr>nextWriteElevation := elevation\<rparr>)"

definition setStatus :: "string \<Rightarrow> ThingSpeak \<Rightarrow> int \<times> ThingSpeak" where
  "setStatus status ts =
     (if length status > FIELDLENGTH_MAX then (ERR_OUT_OF_RANGE, ts)
      else (OK_SUCCESS, ts\<lparr>nextWriteStatus := status\<rparr>))"

definition setTwitterTweet :: "string \<Rightarrow> string \<Rightarrow> ThingSpeak \<Rightarrow> int \<times> ThingSpeak" where
  "setTwitterTweet twitter tweet ts =
     (if length twitter > FIELDLENGTH_MAX \<or> length tweet > FIELDLENGTH_MAX
      then (ERR_OUT_OF_RANGE, ts)
      else (OK_SUCCESS, ts\<lparr>nextWriteTwitter := twitter, nextWriteTweet := tweet\<rparr>))"

definition setCreatedAt :: "string \<Rightarrow> ThingSpeak \<Rightarrow> int \<times> ThingSpeak" where
  "setCreatedAt createdAt ts =
     (if length createdAt > FIELDLENGTH_MAX then (ERR_OUT_OF_RANGE, ts)
      else (OK_SUCCESS, ts\<lparr>nextWriteCreatedAt := createdAt\<rparr>))"

subsection \<open>Library functions the code calls\<close>

text \<open>
  \<^verbatim>\<open>s.c_str()\<close> read as a C string (by \<^verbatim>\<open>strlen\<close>, or by the \<^verbatim>\<open>string\<close> constructor):
  the bytes before the first zero byte.
\<close>

definition c_str :: "string \<Rightarrow> string" where
  "c_str s = takeWhile (\<lambda>c. c \<noteq> CHR 0x00) s"

text \<open>\<^verbatim>\<open>std::to_string\<close> on an integer: its decimal digits, with a minus sign when negative.\<close>

definition digit_char :: "nat \<Rightarrow> char" where
  "digit_char d = ''0123456789'' ! d"

fun decimal :: "nat \<Rightarrow> string" where
  "decimal n = (if n < 10 then [digit_char n] else decimal (n div 10) @ [digit_char (n mod 10)])"

declare decimal.simps [simp del]

definition to_string :: "int \<Rightarrow> string" where
  "to_string i = (if i < 0 then CHR ''-'' # decimal (nat (- i)) else decimal (nat i))"

text \<open>
  \<^verbatim>\<open>std::stoi(str)\<close> in base 10, which is \<^verbatim>\<open>strtol\<close> on the C string with two checks:
  leading white space is skipped, one sign is accepted, the longest run of digits is read;
  without a digit it throws \<^verbatim>\<open>std::invalid_argument\<close>, and a value that does not fit a
  32-bit \<^verbatim>\<open>int\<close> throws \<^verbatim>\<open>std::out_of_range\<close>.
\<close>

datatype error = invalid_argument | out_of_range

definition isspace :: "char \<Rightarrow> bool" where
  "isspace c \<longleftrightarrow> c \<in> set [CHR '' '', CHR 0x09, CHR 0x0A, CHR 0x0B, CHR 0x0C, CHR 0x0D]"

definition isdigit :: "char \<Rightarrow> bool" where
  "isdigit c \<longleftrightarrow> c \<in> set ''0123456789''"

definition digits_value :: "string \<Rightarrow> int" where
  "digits_value ds = foldl (\<lambda>acc c. acc * 10 + (of_char c - 48)) 0 ds"

definition stoi :: "string \<Rightarrow> error + int" where
  "stoi str =
     (let s = dropWhile isspace (c_str str);
          neg = (case s of [] \<Rightarrow> False | c # _ \<Rightarrow> c = CHR ''-'');
          s = (case s of [] \<Rightarrow> [] | c # r \<Rightarrow> if c = CHR ''-'' \<or> c = CHR ''+'' then r else s);
          ds = takeWhile isdigit s
      in if ds = [] then Inl invalid_argument
         else let v = (if neg then - digits_value ds else digits_value ds)
              in if v < - 2147483648 \<or> 2147483647 < v then Inl out_of_range else Inr v)"

text \<open>
  \<^verbatim>\<open>s.find(pat, pos)\<close>: the least position from \<open>pos\<close> on at which \<open>pat\<close> starts in
  \<open>s\<close>, or \<^verbatim>\<open>npos\<close> (\<open>None\<close>). The search runs over the positions \<open>pos, pos + 1, ...\<close>
  up to the length of \<open>s\<close>.
\<close>

fun find_at :: "string \<Rightarrow> string \<Rightarrow> nat \<Rightarrow> nat option" where
  "find_at pat [] p = (if pat = [] then Some p else None)"
| "find_at pat (c # s) p = (if prefix pat (c # s) then Some p else find_at pat s (Suc p))"

definition find_str :: "string \<Rightarrow> string \<Rightarrow> nat \<Rightarrow> nat option" where
  "find_str s pat pos = (if pos > length s then None else find_at pat (drop pos s) pos)"

subsection \<open>The content length of the pending update\<close>

text \<open>
  \<^verbatim>\<open>getWriteFieldsContentLength\<close>, lines 1284 to 1341. \<open>contentLenField\<close> is the body of
  its loop at index \<open>iField\<close>; the sums are 32-bit, the result is the \<^verbatim>\<open>int\<close> they denote.
\<close>

definition contentLenField :: "ThingSpeak \<Rightarrow> nat \<Rightarrow> 32 word \<Rightarrow> 32 word" where
  "contentLenField ts iField contentLen =
     (if length (nextWriteField ts ! iField) > 0 then
        (let contentLen = contentLen + 8 + of_nat (length (nextWriteField ts ! iField))
         in if iField > 9 then contentLen + 1
            else if iField > 99 then contentLen + 2
            else contentLen)
      else contentLen)"

definition getWriteFieldsContentLength :: "ThingSpeak \<Rightarrow> int" where
  "getWriteFieldsContentLength ts =
     (let contentLen = fold (contentLenField ts) [0..<FIELDNUM_MAX] 0;
          contentLen = (if length (nextWriteStatus ts) > 0
                        then contentLen + 8 + of_nat (length (nextWriteStatus ts))
                        else contentLen);
          contentLen = (if length (nextWriteTwitter ts) > 0
                        then contentLen + 9 + of_nat (length (nextWriteTwitter ts))
                        else contentLen);
          contentLen = (if length (nextWriteTweet ts) > 0
                        then contentLen + 7 + of_nat (length (nextWriteTweet ts))
                        else contentLen);
          contentLen = (if length (nextWriteCreatedAt ts) > 0
                        then contentLen + 12 + of_nat (length (nextWriteCreatedAt ts))
                        else contentLen)
      in if contentLen = 0 then 0 else sint (contentLen + 13))"

subsection \<open>The body of a multi-field write\<close>

text \<open>
  Lines 665 to 739 of \<^verbatim>\<open>writeFields\<close>: the string \<^verbatim>\<open>body\<close> and the flag
  \<^verbatim>\<open>fFirstItem\<close>. \<open>appendField\<close> is the body of the loop at index \<open>iField\<close>.
\<close>

definition appendField :: "ThingSpeak \<Rightarrow> nat \<Rightarrow> string \<times> bool \<Rightarrow> string \<times> bool" where
  "appendField ts iField = (\<lambda>(body, fFirstItem).
     if length (nextWriteField ts ! iField) > 0 then
       (let body = (if \<not> fFirstItem then body @ ''&'' else body);
            body = body @ ''field'';
            body = body @ to_string (int (iField + 1));
            body = body @ ''='';
            body = body @ nextWriteField ts ! iField
        in (body, False))
     else (body, fFirstItem))"

definition writeFieldsBody :: "ThingSpeak \<Rightarrow> string" where
  "writeFieldsBody ts =
     (let (body, fFirstItem) = fold (appendField ts) [0..<FIELDNUM_MAX] ('''', True);
          (body, fFirstItem) =
            (if length (nextWriteStatus ts) > 0
             then ((if \<not> fFirstItem then body @ ''&'' else body) @ ''status='' @ nextWriteStatus ts,
                   False)
             else (body, fFirstItem));
          (body, fFirstItem) =
            (if length (nextWriteTwitter ts) > 0
             then ((if \<not> fFirstItem then body @ ''&'' else body) @ ''twitter='' @ nextWriteTwitter ts,
                   False)
             else (body, fFirstItem));
          (body, fFirstItem) =
            (if length (nextWriteTweet ts) > 0
             then ((if \<not> fFirstItem then body @ ''&'' else body) @ ''tweet='' @ nextWriteTweet ts,
                   False)
             else (body, fFirstItem));
          (body, fFirstItem) =
            (if length (nextWriteCreatedAt ts) > 0
             then ((if \<not> fFirstItem then body @ ''&'' else body) @ ''created_at='' @ nextWriteCreatedAt ts,
                   False)
             else (body, fFirstItem))
      in body @ ''&headers=false'')"

subsection \<open>Requests and responses\<close>

datatype http_method = HTTP_GET | HTTP_POST

record http_request =
  req_method :: http_method
  req_url :: string
  req_headers :: "(string \<times> string) list"
  req_body :: string

record http_response =
  status_code :: int
  body_as_string :: string

type_synonym transport = "http_request \<Rightarrow> http_response"

text \<open>
  The three lines both write operations open with: a POST request to the update URL with
  the user agent, the write key and the content type. \<^verbatim>\<open>send(body.c_str(),
  strlen(body.c_str()))\<close> fills in the payload.
\<close>

definition update_request :: "string \<Rightarrow> string \<Rightarrow> http_request" where
  "update_request writeAPIKey body =
     \<lparr>req_method = HTTP_POST,
      req_url = ''http://api.thingspeak.com/update'',
      req_headers = [(''User-Agent'', TS_USER_AGENT),
                     (''X-THINGSPEAKAPIKEY'', writeAPIKey),
                     (''Content-Type'', ''application/x-www-form-urlencoded'')],
      req_body = c_str body\<rparr>"

subsection \<open>The write operations\<close>

type_synonym 'a outcome = "(error + 'a) \<times> ThingSpeak \<times> http_request list"

text \<open>
  \<^verbatim>\<open>writeFields\<close>, lines 641 to 784. The buffer is reset once the body is built, before
  the request is sent, and once more on the path that reaches the end.
\<close>

definition writeFields :: "transport \<Rightarrow> nat \<Rightarrow> string \<Rightarrow> ThingSpeak \<Rightarrow> int outcome" where
  "writeFields send channelNumber writeAPIKey ts =
     (let contentLen = getWriteFieldsContentLength ts
      in if contentLen = 0 then (Inr ERR_SETFIELD_NOT_CALLED, ts, [])
         else
           (let body = writeFieldsBody ts;
                ts = resetWriteFields ts;
                request = update_request writeAPIKey body;
                response = send request;
                status = status_code response
            in if status \<noteq> OK_SUCCESS then (Inr status, ts, [request])
               else
                 (case stoi (body_as_string response) of
                    Inl e \<Rightarrow> (Inl e, ts, [request])
                  | Inr entryID \<Rightarrow>
                      (let status = (if entryID = 0 then ERR_NOT_INSERTED else status)
                       in (Inr status, resetWriteFields ts, [request])))))"

text \<open>
  \<^verbatim>\<open>writeRaw\<close>, lines 846 to 900. Its only reset is the one at the end; the return on a
  status other than 200 comes before it.
\<close>

definition writeRaw :: "transport \<Rightarrow> nat \<Rightarrow> string \<Rightarrow> string \<Rightarrow> ThingSpeak \<Rightarrow> int outcome" where
  "writeRaw send channelNumber postMessage writeAPIKey ts =
     (let body = postMessage @ ''&headers=false'';
          request = update_request writeAPIKey body;
          response = send request;
          status = status_code response
      in if status \<noteq> OK_SUCCESS then (Inr status, ts, [request])
         else
           (case stoi (body_as_string response) of
              Inl e \<Rightarrow> (Inl e, ts, [request])
            | Inr entryID \<Rightarrow>
                (let status = (if entryID = 0 then ERR_NOT_INSERTED else status)
                 in (Inr status, resetWriteFields ts, [request]))))"

text \<open>\<^verbatim>\<open>writeField\<close> with a string value, lines 204 to 220: one field through \<^verbatim>\<open>writeRaw\<close>.\<close>

definition writeField :: "transport \<Rightarrow> nat \<Rightarrow> nat \<Rightarrow> string \<Rightarrow> string \<Rightarrow> ThingSpeak \<Rightarrow> int outcome" where
  "writeField send channelNumber field val writeAPIKey ts =
     (if field < FIELDNUM_MIN \<or> field > FIELDNUM_MAX then (Inr ERR_INVALID_FIELD_NUM, ts, [])
      else if length val > FIELDLENGTH_MAX then (Inr ERR_OUT_OF_RANGE, ts, [])
      else
        (let postMessage = ''field'';
             postMessage = postMessage @ to_string (int field);
             postMessage = postMessage @ ''='';
             postMessage = postMessage @ val
         in writeRaw send channelNumber postMessage writeAPIKey ts))"

text \<open>\<^verbatim>\<open>abortWriteRaw\<close>, lines 1371 to 1374; no function of the class calls it.\<close>

definition abortWriteRaw :: "ThingSpeak \<Rightarrow> int \<times> ThingSpeak" where
  "abortWriteRaw ts = (ERR_UNEXPECTED_FAIL, resetWriteFields ts)"

subsection \<open>The read operations\<close>

text \<open>
  The request \<^verbatim>\<open>readRaw\<close> builds in lines 1207 to 1220: a GET of the channel URL with
  the user agent, the read key when the pointer is not null (\<open>None\<close> is the null pointer),
  and an empty payload.
\<close>

definition read_request :: "nat \<Rightarrow> string \<Rightarrow> string option \<Rightarrow> http_request" where
  "read_request channelNumber URLSuffix readAPIKey =
     (let URL = ''http://api.thingspeak.com/channels/'' @ to_string (int channelNumber) @ URLSuffix
      in \<lparr>req_method = HTTP_GET,
          req_url = c_str URL,
          req_headers = (''User-Agent'', TS_USER_AGENT) #
            (case readAPIKey of None \<Rightarrow> [] | Some k \<Rightarrow> [(''X-THINGSPEAKAPIKEY'', k)]),
          req_body = ''''\<rparr>)"

text \<open>
  \<^verbatim>\<open>readRaw\<close>, lines 1198 to 1251. The returned text is the response body read as a C
  string.
\<close>

definition readRaw :: "transport \<Rightarrow> nat \<Rightarrow> string \<Rightarrow> string option \<Rightarrow> ThingSpeak \<Rightarrow>
    string \<times> ThingSpeak \<times> http_request list" where
  "readRaw send channelNumber URLSuffix readAPIKey ts =
     (let request = read_request channelNumber URLSuffix readAPIKey;
          response = send request;
          ts = ts\<lparr>lastReadStatus := status_code response\<rparr>;
          ret = c_str (body_as_string response)
      in if lastReadStatus ts \<noteq> OK_SUCCESS then ('''', ts, [request])
         else (ret, ts, [request]))"

definition getLastReadStatus :: "ThingSpeak \<Rightarrow> int" where
  "getLastReadStatus ts = lastReadStatus ts"

text \<open>\<^verbatim>\<open>readStringField\<close>, lines 918 to 931.\<close>

definition readStringField :: "transport \<Rightarrow> nat \<Rightarrow> nat \<Rightarrow> string option \<Rightarrow> ThingSpeak \<Rightarrow>
    string \<times> ThingSpeak \<times> http_request list" where
  "readStringField send channelNumber field readAPIKey ts =
     (if field < FIELDNUM_MIN \<or> field > FIELDNUM_MAX
      then ('''', ts\<lparr>lastReadStatus := ERR_INVALID_FIELD_NUM\<rparr>, [])
      else readRaw send channelNumber (''/fields/'' @ to_string (int field) @ ''/last'')
             readAPIKey ts)"

text \<open>
  \<^verbatim>\<open>readLongField\<close> and \<^verbatim>\<open>readIntField\<close>, lines 1008 to 1011 and 1048 to 1050: the
  text \<^verbatim>\<open>readStringField\<close> returns goes through \<^verbatim>\<open>stoi\<close>, whose exception nothing
  catches.
\<close>

definition readLongField :: "transport \<Rightarrow> nat \<Rightarrow> nat \<Rightarrow> string option \<Rightarrow> ThingSpeak \<Rightarrow>
    int outcome" where
  "readLongField send channelNumber field readAPIKey ts =
     (case readStringField send channelNumber field readAPIKey ts of
        (text, ts, reqs) \<Rightarrow> (stoi text, ts, reqs))"

definition readIntField :: "transport \<Rightarrow> nat \<Rightarrow> nat \<Rightarrow> string option \<Rightarrow> ThingSpeak \<Rightarrow>
    int outcome" where
  "readIntField send channelNumber field readAPIKey ts =
     readLongField send channelNumber field readAPIKey ts"

text \<open>
  \<^verbatim>\<open>getJSONValueByKey\<close>, lines 1343 to 1369. The two positions are \<^verbatim>\<open>int\<close> variables
  holding \<^verbatim>\<open>size_t\<close> results; on a 32-bit target the conversions there and back lose
  nothing, and the comparison with \<^verbatim>\<open>npos\<close> is the test for \<open>None\<close>.
  \<^verbatim>\<open>erase(toPosition)\<close> keeps the first \<open>toPosition\<close> bytes, \<^verbatim>\<open>substr(fromPosition)\<close>
  drops the first \<open>fromPosition\<close> of those. \<open>searchPhrase key\<close> is the local string of
  line 1348: a double quote, the key, and the three bytes double quote, colon, double quote.
\<close>

definition searchPhrase :: "string \<Rightarrow> string" where
  "searchPhrase key = [CHR 0x22] @ key @ [CHR 0x22, CHR '':'', CHR 0x22]"

definition getJSONValueByKey :: "string \<Rightarrow> string \<Rightarrow> string" where
  "getJSONValueByKey textToSearch key =
     (if length textToSearch = 0 then ''''
      else
        (let searchPhrase = searchPhrase key
         in case find_str textToSearch searchPhrase 0 of
              None \<Rightarrow> ''''
            | Some fromPosition \<Rightarrow>
                (let fromPosition = fromPosition + length searchPhrase
                 in case find_str textToSearch [CHR 0x22] fromPosition of
                      None \<Rightarrow> ''''
                    | Some toPosition \<Rightarrow>
                        (let textToSearch = take toPosition textToSearch
                         in drop fromPosition textToSearch))))"

text \<open>\<^verbatim>\<open>readStatus\<close> and \<^verbatim>\<open>readCreatedAt\<close>, lines 1086 to 1094 and 1129 to 1137.\<close>

definition readStatus :: "transport \<Rightarrow> nat \<Rightarrow> string option \<Rightarrow> ThingSpeak \<Rightarrow>
    string \<times> ThingSpeak \<times> http_request list" where
  "readStatus send channelNumber readAPIKey ts =
     (case readRaw send channelNumber ''/feeds/last.txt?status=true'' readAPIKey ts of
        (content, ts, reqs) \<Rightarrow>
          if getLastReadStatus ts \<noteq> OK_SUCCESS then ('''', ts, reqs)
          else (getJSONValueByKey content ''status'', ts, reqs))"

definition readCreatedAt :: "transport \<Rightarrow> nat \<Rightarrow> string option \<Rightarrow> ThingSpeak \<Rightarrow>
    string \<times> ThingSpeak \<times> http_request list" where
  "readCreatedAt send channelNumber readAPIKey ts =
     (case readRaw send channelNumber ''/feeds/last.txt'' readAPIKey ts of
        (content, ts, reqs) \<Rightarrow>
          if getLastReadStatus ts \<noteq> OK_SUCCESS then ('''', ts, reqs)
          else (getJSONValueByKey content ''created_at'', ts, reqs))"

subsection \<open>The specification's wording, as definitions\<close>

text \<open>
  The rule the specification gives for interpreting the response to a write: a status
  other than 200 is the result; status 200 with entry ID 0 is \<^verbatim>\<open>NotInserted\<close>; status 200
  with another entry ID is 200. \<open>spec_write_result response result\<close> says that
  \<open>result\<close> is what the rule prescribes for \<open>response\<close>.
\<close>

definition spec_write_result :: "http_response \<Rightarrow> error + int \<Rightarrow> bool" where
  "spec_write_result response result \<longleftrightarrow>
     (status_code response \<noteq> 200 \<longrightarrow> result = Inr (status_code response)) \<and>
     (status_code response = 200 \<and> stoi (body_as_string response) = Inr 0 \<longrightarrow>
        result = Inr (- 401)) \<and>
     (status_code response = 200 \<and>
        (case stoi (body_as_string response) of Inl e \<Rightarrow> False | Inr entryID \<Rightarrow> entryID \<noteq> 0) \<longrightarrow>
        result = Inr 200)"

text \<open>
  The encoding the specification describes: the terms \<^verbatim>\<open>field1=\<close> to \<^verbatim>\<open>field8=\<close>,
  \<^verbatim>\<open>status=\<close>, \<^verbatim>\<open>twitter=\<close>, \<^verbatim>\<open>tweet=\<close>, \<^verbatim>\<open>created_at=\<close> in this order, each
  with its staged value as it is, those with an empty value left out; every term but the
  first preceded by \<^verbatim>\<open>&\<close>; then \<^verbatim>\<open>&headers=false\<close>.
\<close>

definition spec_terms :: "ThingSpeak \<Rightarrow> string list" where
  "spec_terms ts =
     map (\<lambda>(name, v). name @ ''='' @ v)
       (filter (\<lambda>(name, v). v \<noteq> '''')
          (zip [''field1'', ''field2'', ''field3'', ''field4'',
                ''field5'', ''field6'', ''field7'', ''field8'']
             (nextWriteField ts) @
           [(''status'', nextWriteStatus ts),
            (''twitter'', nextWriteTwitter ts),
            (''tweet'', nextWriteTweet ts),
            (''created_at'', nextWriteCreatedAt ts)]))"

definition spec_join :: "string list \<Rightarrow> string" where
  "spec_join terms =
     (case terms of [] \<Rightarrow> '''' | t # rest \<Rightarrow> t @ concat (map (\<lambda>u. ''&'' @ u) rest))"

definition spec_encode :: "ThingSpeak \<Rightarrow> string" where
  "spec_encode ts = spec_join (spec_terms ts) @ ''&headers=false''"

text \<open>
  What the specification says of a read operation: the status code of the response is the
  last read status afterwards, the returned text is empty when that status is not 200, and
  so a text that is not empty is returned only with status 200.
\<close>

definition spec_read_result ::
    "http_response \<Rightarrow> string \<times> ThingSpeak \<times> http_request list \<Rightarrow> bool" where
  "spec_read_result response out \<longleftrightarrow>
     (case out of (text, ts', reqs) \<Rightarrow>
        lastReadStatus ts' = status_code response \<and>
        (status_code response \<noteq> 200 \<longrightarrow> text = []) \<and>
        (text \<noteq> [] \<longrightarrow> lastReadStatus ts' = 200))"

subsection \<open>States the worked examples use\<close>

text \<open>
  A fresh object on which \<^verbatim>\<open>setField(1, "10")\<close> and \<^verbatim>\<open>setField(2, "abc")\<close> have been
  called, a value of 256 bytes, and a transport that answers every request with a fixed
  status and body.
\<close>

definition staged_example :: ThingSpeak where
  "staged_example = snd (setField 2 ''abc'' (snd (setField 1 ''10'' ThingSpeak_new)))"

definition long_value :: string where
  "long_value = replicate 256 CHR ''x''"

definition answer :: "int \<Rightarrow> string \<Rightarrow> transport" where
  "answer status text = (\<lambda>request. \<lparr>status_code = status, body_as_string = text\<rparr>)"

text \<open>
  A value with \<^verbatim>\<open>&\<close>, \<^verbatim>\<open>=\<close> and a blank in field 8, beside field 3 and a status.
\<close>

definition verbatim_example :: ThingSpeak where
  "verbatim_example =
     snd (setStatus ''on line'' (snd (setField 8 ''a&b=c d'' (snd (setField 3 ''1.5'' ThingSpeak_new)))))"

text \<open>
  Three response texts: one with the key \<^verbatim>\<open>status\<close> and a second key, one without it,
  and one whose value has no closing double quote.
\<close>

definition json_two_keys :: string where
  \<open>json_two_keys = ''{"status":"ok","x":"y"}''\<close>

definition json_other_key :: string where
  \<open>json_other_key = ''{"x":"y"}''\<close>

definition json_unterminated :: string where
  \<open>json_unterminated = ''{"status":"ok''\<close>

section \<open>Properties\<close>

subsection \<open>Auxiliary facts\<close>

lemma decimal_digit: "n < 10 \<Longrightarrow> decimal n = [digit_char n]"
  by (simp add: decimal.simps)

lemma length_to_string_digit: "i < 9 \<Longrightarrow> length (to_string (int (i + 1))) = 1"
  by (simp add: to_string_def decimal_digit)

lemma fold_reset_fields:
  "fold (\<lambda>iField t. t\<lparr>nextWriteField := (nextWriteField t)[iField := '''']\<rparr>) is ts =
     ts\<lparr>nextWriteField := fold (\<lambda>i xs. xs[i := '''']) is (nextWriteField ts)\<rparr>"
  by (induction "is" arbitrary: ts) simp_all

lemma length8E:
  assumes "length xs = 8"
  obtains a b c d e f g h where "xs = [a, b, c, d, e, f, g, h]"
  using assms by (auto simp: length_Suc_conv numeral_eq_Suc)

lemma upt8: "[0..<8] = [0, 1, 2, 3, 4, 5, 6, 7]"
  by (simp add: upt_rec)

lemma resetWriteFields_fields:
  assumes "length (nextWriteField ts) = 8"
  shows "nextWriteField (resetWriteFields ts) = replicate 8 ''''"
proof -
  from assms obtain a b c d e f g h where "nextWriteField ts = [a, b, c, d, e, f, g, h]"
    by (rule length8E)
  then show ?thesis
    by (simp add: resetWriteFields_def fold_reset_fields upt8 numeral_eq_Suc)
qed

lemma contentLenField_fold:
  assumes "\<forall>i\<in>set is. i < 9"
  shows "fold (contentLenField ts) is w =
         w + of_nat (\<Sum>i\<leftarrow>is. if 0 < length (nextWriteField ts ! i)
                                then 8 + length (nextWriteField ts ! i) else 0)"
  using assms
  by (induction "is" arbitrary: w) (auto simp: contentLenField_def Let_def)

lemma length_to_string_digit': "i < 9 \<Longrightarrow> length (to_string (1 + int i)) = 1"
  using length_to_string_digit [of i] by (simp add: add.commute)

lemma appendField_step:
  assumes "i < 9" and "appendField ts i (body, fFirstItem) = (body', fFirstItem')"
  shows "length body' + (if fFirstItem' then 0 else 1) =
         length body + (if fFirstItem then 0 else 1) +
         (if 0 < length (nextWriteField ts ! i) then 8 + length (nextWriteField ts ! i) else 0)"
    and "fFirstItem' \<longleftrightarrow> fFirstItem \<and> length (nextWriteField ts ! i) = 0"
  using assms
  by (auto simp: appendField_def Let_def length_to_string_digit' split: if_splits)

lemma appendField_fold:
  assumes "\<forall>i\<in>set is. i < 9"
    and "fold (appendField ts) is (body, fFirstItem) = (body', fFirstItem')"
  shows "length body' + (if fFirstItem' then 0 else 1) =
         length body + (if fFirstItem then 0 else 1) +
         (\<Sum>i\<leftarrow>is. if 0 < length (nextWriteField ts ! i)
                    then 8 + length (nextWriteField ts ! i) else 0)
         \<and> (fFirstItem' \<longleftrightarrow> fFirstItem \<and> (\<forall>i\<in>set is. length (nextWriteField ts ! i) = 0))"
  using assms
proof (induction "is" arbitrary: body fFirstItem)
  case Nil
  then show ?case by simp
next
  case (Cons i "is")
  obtain b1 f1 where step: "appendField ts i (body, fFirstItem) = (b1, f1)"
    by (cases "appendField ts i (body, fFirstItem)")
  have i: "i < 9" using Cons.prems(1) by simp
  have rest: "fold (appendField ts) is (b1, f1) = (body', fFirstItem')"
    using Cons.prems(2) step by simp
  have ih: "length body' + (if fFirstItem' then 0 else 1) =
         length b1 + (if f1 then 0 else 1) +
         (\<Sum>i\<leftarrow>is. if 0 < length (nextWriteField ts ! i)
                    then 8 + length (nextWriteField ts ! i) else 0)
         \<and> (fFirstItem' \<longleftrightarrow> f1 \<and> (\<forall>i\<in>set is. length (nextWriteField ts ! i) = 0))"
    by (rule Cons.IH [OF _ rest]) (use Cons.prems(1) in simp)
  from ih appendField_step [OF i step] show ?case
    by (cases fFirstItem; cases f1; cases fFirstItem';
        cases "0 < length (nextWriteField ts ! i)"; simp; linarith?)
qed

lemma sint_of_nat_small: "n < 2 ^ 31 \<Longrightarrow> sint (of_nat n :: 32 word) = int n"
  by (simp add: signed_of_nat signed_take_bit_int_eq_self)

lemma of_nat_eq_0_small: "n < 2 ^ 32 \<Longrightarrow> (of_nat n :: 32 word) = 0 \<longleftrightarrow> n = 0"
  using of_nat_neq_0 [of n, where 'a = 32] by auto

lemma field_cost_bound:
  assumes "\<forall>i\<in>set is. length (F ! i) \<le> 255"
  shows "(\<Sum>i\<leftarrow>is. if 0 < length (F ! i) then 8 + length (F ! i) else 0) \<le> 263 * length is"
  using assms by (induction "is") auto

lemma fold_update_length:
  "length (fold (\<lambda>i xs. xs[i := v]) is xs) = length xs"
  by (induction "is" arbitrary: xs) simp_all

lemma fold_update_nth:
  "j < length xs \<Longrightarrow> fold (\<lambda>i xs. xs[i := v]) is xs ! j = (if j \<in> set is then v else xs ! j)"
  by (induction "is" arbitrary: xs) (auto simp: nth_list_update)

lemma fold_update_idem:
  "fold (\<lambda>i xs. xs[i := v]) is (fold (\<lambda>i xs. xs[i := v]) is xs) = fold (\<lambda>i xs. xs[i := v]) is xs"
  by (rule nth_equalityI) (simp_all add: fold_update_length fold_update_nth)

lemma resetWriteFields_idem:
  "resetWriteFields (resetWriteFields ts) = resetWriteFields ts"
  by (simp add: resetWriteFields_def fold_reset_fields fold_update_idem)

lemma resetWriteFields_len:
  assumes "length (nextWriteField ts) = 8"
  shows "getWriteFieldsContentLength (resetWriteFields ts) = 0"
proof -
  have "nextWriteField (resetWriteFields ts) = replicate 8 ''''"
    using assms by (rule resetWriteFields_fields)
  moreover have "nextWriteStatus (resetWriteFields ts) = ''''"
    "nextWriteTwitter (resetWriteFields ts) = ''''"
    "nextWriteTweet (resetWriteFields ts) = ''''"
    "nextWriteCreatedAt (resetWriteFields ts) = ''''"
    by (simp_all add: resetWriteFields_def)
  ultimately show ?thesis
    by (simp add: getWriteFieldsContentLength_def upt8 contentLenField_def numeral_eq_Suc)
qed

lemma writeFields_clears:
  assumes "length (nextWriteField ts) = 8" and "getWriteFieldsContentLength ts \<noteq> 0"
  shows "fst (snd (writeFields send channelNumber writeAPIKey ts)) = resetWriteFields ts"
    and "getWriteFieldsContentLength (fst (snd (writeFields send channelNumber writeAPIKey ts))) = 0"
proof -
  show 1: "fst (snd (writeFields send channelNumber writeAPIKey ts)) = resetWriteFields ts"
    using assms(2)
    by (simp add: writeFields_def Let_def resetWriteFields_idem split: sum.splits)
  show "getWriteFieldsContentLength (fst (snd (writeFields send channelNumber writeAPIKey ts))) = 0"
    unfolding 1 using assms(1) by (rule resetWriteFields_len)
qed

lemma stoi_0: "stoi ''0'' = Inr 0"
  by (simp add: stoi_def c_str_def isspace_def isdigit_def digits_value_def)

lemma stoi_12345: "stoi ''12345'' = Inr 12345"
  by (simp add: stoi_def c_str_def isspace_def isdigit_def digits_value_def)

lemma stoi_empty: "stoi '''' = Inl invalid_argument"
  by (simp add: stoi_def c_str_def)

lemma ThingSpeak_new_eq:
  "ThingSpeak_new =
     \<lparr>nextWriteField = ['''', '''', '''', '''', '''', '''', '''', ''''],
      nextWriteLatitude = NAN, nextWriteLongitude = NAN, nextWriteElevation = NAN,
      lastReadStatus = OK_SUCCESS,
      nextWriteStatus = '''', nextWriteTwitter = '''', nextWriteTweet = '''',
      nextWriteCreatedAt = ''''\<rparr>"
  by (simp add: ThingSpeak_new_def resetWriteFields_def fold_reset_fields upt8 numeral_eq_Suc)

lemma staged_example_eq:
  "staged_example =
     \<lparr>nextWriteField = [''10'', ''abc'', '''', '''', '''', '''', '''', ''''],
      nextWriteLatitude = NAN, nextWriteLongitude = NAN, nextWriteElevation = NAN,
      lastReadStatus = OK_SUCCESS,
      nextWriteStatus = '''', nextWriteTwitter = '''', nextWriteTweet = '''',
      nextWriteCreatedAt = ''''\<rparr>"
  by (simp add: staged_example_def setField_def ThingSpeak_new_eq numeral_eq_Suc)

lemma staged_example_inv: "buffer_inv staged_example"
  by (simp add: buffer_inv_def staged_example_eq)

lemma staged_example_staged: "any_staged staged_example"
  by (simp add: any_staged_def staged_example_eq)

lemma staged_example_body:
  "writeFieldsBody staged_example = ''field1=10&field2=abc&headers=false''"
  by (simp add: writeFieldsBody_def staged_example_eq upt8 appendField_def to_string_def
      decimal_digit digit_char_def)

lemma staged_example_len: "getWriteFieldsContentLength staged_example = 34"
  by (simp add: getWriteFieldsContentLength_def staged_example_eq upt8 contentLenField_def)

lemma reset_staged_example: "resetWriteFields staged_example = ThingSpeak_new"
  by (simp add: resetWriteFields_def fold_reset_fields upt8 staged_example_eq ThingSpeak_new_eq)

lemma writeRaw_example_state:
  "fst (snd (writeRaw (answer 200 ''17'') 12345 ''field3=7'' ''KEY'' staged_example)) =
     ThingSpeak_new"
  by (simp add: writeRaw_def answer_def reset_staged_example stoi_def c_str_def isspace_def
      isdigit_def digits_value_def)

subsection \<open>The content length predicts the encoded body\<close>

text \<open>
  Claim C1. In every state of the pending update that keeps the invariant (eight slots, no
  staged string longer than 255 bytes) and has something staged, the value
  \<^verbatim>\<open>getWriteFieldsContentLength\<close> returns is the length in bytes of the body string that
  \<^verbatim>\<open>writeFields\<close> builds for that state, the closing \<^verbatim>\<open>&headers=false\<close> included.
\<close>

theorem content_length_exact:
  assumes inv: "buffer_inv ts" and staged: "any_staged ts"
  shows "getWriteFieldsContentLength ts = int (length (writeFieldsBody ts))"
proof -
  let ?F = "nextWriteField ts"
  define N where "N = (\<Sum>i\<leftarrow>[0..<8]. if 0 < length (?F ! i) then 8 + length (?F ! i) else 0)"
  define m1 where "m1 = (if 0 < length (nextWriteStatus ts) then 8 + length (nextWriteStatus ts) else 0)"
  define m2 where "m2 = (if 0 < length (nextWriteTwitter ts) then 9 + length (nextWriteTwitter ts) else 0)"
  define m3 where "m3 = (if 0 < length (nextWriteTweet ts) then 7 + length (nextWriteTweet ts) else 0)"
  define m4 where "m4 = (if 0 < length (nextWriteCreatedAt ts) then 12 + length (nextWriteCreatedAt ts) else 0)"
  define M where "M = N + m1 + m2 + m3 + m4"
  obtain b f where fold: "fold (appendField ts) [0..<8] ('''', True) = (b, f)"
    by (cases "fold (appendField ts) [0..<8] ('''', True)")
  have idx: "\<forall>i\<in>set [0..<8]. i < 9" by simp
  have len0: "length b + (if f then 0 else 1) = length ([]::string) + (if True then 0 else 1) + N"
    and flag0: "f \<longleftrightarrow> True \<and> (\<forall>i\<in>set [0..<8]. length (?F ! i) = 0)"
    using appendField_fold [OF idx fold] unfolding N_def by blast+
  have len: "length b + (if f then 0 else 1) = N"
    using len0 by simp
  have flag: "f \<longleftrightarrow> (\<forall>i<8. length (?F ! i) = 0)"
    using flag0 by auto
  have w: "fold (contentLenField ts) [0..<8] 0 = of_nat N"
    by (simp add: contentLenField_fold [OF idx] N_def)
  have clen: "getWriteFieldsContentLength ts =
      (if (of_nat M :: 32 word) = 0 then 0 else sint (of_nat (M + 13) :: 32 word))"
    unfolding getWriteFieldsContentLength_def w
    by (simp add: Let_def M_def m1_def m2_def m3_def m4_def add.assoc)
  have len8: "length ?F = 8" and small: "\<forall>i<8. length (?F ! i) \<le> 255"
    using inv by (simp_all add: buffer_inv_def list_all_length)
  have "N \<le> 263 * length [0..<8]"
    unfolding N_def by (rule field_cost_bound) (use small in simp)
  moreover have "m1 \<le> 263" "m2 \<le> 264" "m3 \<le> 262" "m4 \<le> 267"
    using inv by (simp_all add: buffer_inv_def m1_def m2_def m3_def m4_def)
  ultimately have bound: "M \<le> 3160"
    by (simp add: M_def)
  have not_first: "\<not> (f \<and> m1 + m2 + m3 + m4 = 0)"
  proof
    assume a: "f \<and> m1 + m2 + m3 + m4 = 0"
    then have "\<forall>i<8. length (?F ! i) = 0" using flag by simp
    then have "\<not> list_ex (\<lambda>v. 0 < length v) ?F"
      using len8 by (simp add: list_ex_length)
    moreover from a have "length (nextWriteStatus ts) = 0" "length (nextWriteTwitter ts) = 0"
        "length (nextWriteTweet ts) = 0" "length (nextWriteCreatedAt ts) = 0"
      by (simp_all add: m1_def m2_def m3_def m4_def split: if_splits)
    ultimately show False using staged by (simp add: any_staged_def)
  qed
  have body: "length (writeFieldsBody ts) + 1 = M + 14"
    unfolding writeFieldsBody_def fold
    using len not_first
    by (cases f) (auto simp: Let_def M_def m1_def m2_def m3_def m4_def)
  have M: "0 < M" "length (writeFieldsBody ts) = M + 13"
    using body len not_first by (cases f; simp add: M_def)+
  have "(of_nat M :: 32 word) \<noteq> 0"
    using M(1) bound by (simp add: of_nat_eq_0_small)
  moreover have "sint (of_nat (M + 13) :: 32 word) = int (M + 13)"
    by (rule sint_of_nat_small) (use bound in simp)
  ultimately show ?thesis
    using clen M(2) by simp
qed


text \<open>
  For the update of fields 1 and 2 the body is \<^verbatim>\<open>field1=10&field2=abc&headers=false\<close> and
  the content length is its 34 bytes.
\<close>

theorem content_length_exact_witness:
  "buffer_inv staged_example \<and> any_staged staged_example \<and>
   writeFieldsBody staged_example = ''field1=10&field2=abc&headers=false'' \<and>
   getWriteFieldsContentLength staged_example = 34"
  using content_length_exact [OF staged_example_inv staged_example_staged]
  by (simp add: staged_example_inv staged_example_staged staged_example_body)

subsection \<open>The encoded body\<close>

lemma spec_join_Nil: "spec_join [] = []"
  by (simp add: spec_join_def)

lemma spec_join_snoc:
  "spec_join (acc @ [t]) = (if acc = [] then t else spec_join acc @ ''&'' @ t)"
  by (cases acc) (simp_all add: spec_join_def)

lemma appendField_terms:
  "fold (appendField ts) is (spec_join acc, acc = []) =
     (spec_join (acc @ map (\<lambda>(n, v). n @ ''='' @ v) (filter (\<lambda>(n, v). v \<noteq> '''')
        (map (\<lambda>i. (''field'' @ to_string (int (i + 1)), nextWriteField ts ! i)) is))),
      acc @ map (\<lambda>(n, v). n @ ''='' @ v) (filter (\<lambda>(n, v). v \<noteq> '''')
        (map (\<lambda>i. (''field'' @ to_string (int (i + 1)), nextWriteField ts ! i)) is)) = [])"
proof (induction "is" arbitrary: acc)
  case Nil
  then show ?case by simp
next
  case (Cons i "is")
  show ?case
  proof (cases "nextWriteField ts ! i = []")
    case True
    then have "appendField ts i (spec_join acc, acc = []) = (spec_join acc, acc = [])"
      by (simp add: appendField_def)
    then show ?thesis
      using Cons.IH [of acc] True by simp
  next
    case False
    let ?t = "''field'' @ to_string (int (i + 1)) @ ''='' @ nextWriteField ts ! i"
    have "appendField ts i (spec_join acc, acc = []) =
            (spec_join (acc @ [?t]), acc @ [?t] = [])"
      using False by (simp add: appendField_def spec_join_snoc spec_join_Nil Let_def)
    then show ?thesis
      using Cons.IH [of "acc @ [?t]"] False by simp
  qed
qed

lemma field_names:
  assumes "length F = 8"
  shows "zip [''field1'', ''field2'', ''field3'', ''field4'',
              ''field5'', ''field6'', ''field7'', ''field8''] F =
         map (\<lambda>i. (''field'' @ to_string (int (i + 1)), F ! i)) [0..<8]"
proof -
  from assms obtain a b c d e f g h where "F = [a, b, c, d, e, f, g, h]"
    by (rule length8E)
  then show ?thesis
    by (simp add: upt8 to_string_def decimal_digit digit_char_def)
qed

lemma append_item:
  "(if 0 < length v
    then ((if \<not> (T = []) then spec_join T @ ''&'' else spec_join T) @ nm @ v, False)
    else (spec_join T, T = [])) =
   (spec_join (T @ (if v = [] then [] else [nm @ v])),
    T @ (if v = [] then [] else [nm @ v]) = [])"
  by (simp add: spec_join_snoc spec_join_Nil)

lemma verbatim_example_eq:
  "verbatim_example =
     \<lparr>nextWriteField = ['''', '''', ''1.5'', '''', '''', '''', '''', ''a&b=c d''],
      nextWriteLatitude = NAN, nextWriteLongitude = NAN, nextWriteElevation = NAN,
      lastReadStatus = OK_SUCCESS,
      nextWriteStatus = ''on line'', nextWriteTwitter = '''', nextWriteTweet = '''',
      nextWriteCreatedAt = ''''\<rparr>"
  by (simp add: verbatim_example_def setField_def setStatus_def ThingSpeak_new_eq numeral_eq_Suc)

lemma verbatim_example_spec:
  "spec_encode verbatim_example = ''field3=1.5&field8=a&b=c d&status=on line&headers=false''"
  by (simp add: spec_encode_def spec_terms_def spec_join_def verbatim_example_eq)

text \<open>
  Claim C4. For every state of the pending update (with its eight slots) the body string
  \<^verbatim>\<open>writeFields\<close> builds is the encoding the specification describes: the terms of the
  fields 1 to 8 whose staged value is not empty, in ascending order, then those of status,
  twitter, tweet and created_at whose value is not empty, every term but the first preceded
  by \<^verbatim>\<open>&\<close>, then \<^verbatim>\<open>&headers=false\<close>; each value stands in the body byte for byte.
\<close>

theorem body_is_spec_encoding:
  assumes "length (nextWriteField ts) = 8"
  shows "writeFieldsBody ts = spec_encode ts"
proof -
  define X where "X = map (\<lambda>(n, v). n @ ''='' @ v) (filter (\<lambda>(n, v). v \<noteq> '''')
        (map (\<lambda>i. (''field'' @ to_string (int (i + 1)), nextWriteField ts ! i)) [0..<8]))"
  define m1 where "m1 = (if nextWriteStatus ts = [] then [] else [''status='' @ nextWriteStatus ts])"
  define m2 where "m2 = (if nextWriteTwitter ts = [] then [] else [''twitter='' @ nextWriteTwitter ts])"
  define m3 where "m3 = (if nextWriteTweet ts = [] then [] else [''tweet='' @ nextWriteTweet ts])"
  define m4 where "m4 = (if nextWriteCreatedAt ts = [] then [] else [''created_at='' @ nextWriteCreatedAt ts])"
  have loop: "fold (appendField ts) [0..<8] ('''', True) = (spec_join X, X = [])"
    using appendField_terms [of ts "[0..<8]" "[]"] by (simp add: X_def spec_join_Nil)
  have body: "writeFieldsBody ts = spec_join ((((X @ m1) @ m2) @ m3) @ m4) @ ''&headers=false''"
    unfolding writeFieldsBody_def loop Let_def prod.case m1_def m2_def m3_def m4_def
    by (simp only: append_item prod.case)
  have terms: "spec_terms ts = (((X @ m1) @ m2) @ m3) @ m4"
    unfolding spec_terms_def field_names [OF assms]
    by (simp add: X_def m1_def m2_def m3_def m4_def)
  show ?thesis
    by (simp only: body terms spec_encode_def)
qed

text \<open>
  A value with \<^verbatim>\<open>&\<close>, \<^verbatim>\<open>=\<close> and a blank appears in the body as it is, not
  percent-encoded.
\<close>

theorem body_is_spec_encoding_witness:
  "length (nextWriteField verbatim_example) = 8 \<and>
   writeFieldsBody verbatim_example = ''field3=1.5&field8=a&b=c d&status=on line&headers=false'' \<and>
   writeFieldsBody staged_example = spec_encode staged_example"
proof -
  have 1: "length (nextWriteField verbatim_example) = 8"
    by (simp add: verbatim_example_eq)
  have 2: "length (nextWriteField staged_example) = 8"
    by (simp add: staged_example_eq)
  show ?thesis
    using body_is_spec_encoding [OF 1] body_is_spec_encoding [OF 2] 1
    by (simp add: verbatim_example_spec)
qed

subsection \<open>Staging a field\<close>

text \<open>
  Claim C5. For every field index and value, \<^verbatim>\<open>setField\<close> returns -201 and leaves the
  object unchanged when the index is below 1 or above 8; it returns -101 and leaves the
  object unchanged when the value is longer than 255 bytes; and when the index is within 1
  to 8 and the value has at most 255 bytes it returns 200 and changes nothing but slot
  \<open>field - 1\<close> of the fields, which then holds the value. The two refusals are the
  guards of lines 320 and 322 in their order: the length is looked at for an index that
  has passed the first guard.
\<close>

theorem setField_checks:
  "(field < 1 \<or> field > 8 \<longrightarrow> setField field val ts = (- 201, ts)) \<and>
   (1 \<le> field \<and> field \<le> 8 \<and> length val > 255 \<longrightarrow> setField field val ts = (- 101, ts)) \<and>
   (1 \<le> field \<and> field \<le> 8 \<and> length val \<le> 255 \<longrightarrow>
      setField field val ts =
        (200, ts\<lparr>nextWriteField := (nextWriteField ts)[field - 1 := val]\<rparr>) \<and>
      (length (nextWriteField ts) = 8 \<longrightarrow>
         nextWriteField (snd (setField field val ts)) ! (field - 1) = val \<and>
         (\<forall>j. j \<noteq> field - 1 \<longrightarrow>
            nextWriteField (snd (setField field val ts)) ! j = nextWriteField ts ! j)))"
  by (auto simp: setField_def)

text \<open>
  Index 9 is refused, a value of 256 bytes for field 3 is refused, and a second value for
  field 1 replaces the first and leaves field 2 alone.
\<close>

theorem setField_checks_witness:
  "setField 9 ''7'' staged_example = (- 201, staged_example) \<and>
   setField 3 long_value staged_example = (- 101, staged_example) \<and>
   nextWriteField (snd (setField 1 ''7'' staged_example)) =
     [''7'', ''abc'', '''', '''', '''', '''', '''', ''''] \<and>
   fst (setField 1 ''7'' staged_example) = 200"
  using setField_checks [of 9 "''7''" staged_example]
    setField_checks [of 3 long_value staged_example]
    setField_checks [of 1 "''7''" staged_example]
  by (simp add: long_value_def staged_example_eq)

subsection \<open>Nothing staged\<close>

lemma nothing_staged_fields:
  assumes "length (nextWriteField ts) = 8" and "\<not> any_staged ts"
  shows "\<forall>i<8. length (nextWriteField ts ! i) = 0"
  using assms by (auto simp: any_staged_def list_ex_length)

text \<open>
  Claim C6. When no field, status, twitter, tweet or created-at value is staged,
  \<^verbatim>\<open>getWriteFieldsContentLength\<close> returns 0 and \<^verbatim>\<open>writeFields\<close> returns -210, leaves the
  object as it is and sends no request.
\<close>

theorem nothing_staged_no_request:
  assumes "length (nextWriteField ts) = 8" and "\<not> any_staged ts"
  shows "getWriteFieldsContentLength ts = 0 \<and>
         writeFields send channelNumber writeAPIKey ts = (Inr (- 210), ts, [])"
proof -
  have idx: "\<forall>i\<in>set [0..<8]. i < 9" by simp
  have empty: "\<forall>i<8. length (nextWriteField ts ! i) = 0"
    using assms by (rule nothing_staged_fields)
  then have "(\<Sum>i\<leftarrow>[0..<8]. if 0 < length (nextWriteField ts ! i)
                 then 8 + length (nextWriteField ts ! i) else 0) = 0"
    by (simp add: sum_list_eq_0_iff)
  then have "fold (contentLenField ts) [0..<8] 0 = 0"
    by (simp only: contentLenField_fold [OF idx]) simp
  moreover have "length (nextWriteStatus ts) = 0" "length (nextWriteTwitter ts) = 0"
    "length (nextWriteTweet ts) = 0" "length (nextWriteCreatedAt ts) = 0"
    using assms(2) by (simp_all add: any_staged_def)
  ultimately have "getWriteFieldsContentLength ts = 0"
    by (simp add: getWriteFieldsContentLength_def)
  then show ?thesis
    by (simp add: writeFields_def)
qed

text \<open>A fresh object has nothing staged.\<close>

theorem nothing_staged_no_request_witness:
  "length (nextWriteField ThingSpeak_new) = 8 \<and> \<not> any_staged ThingSpeak_new \<and>
   getWriteFieldsContentLength ThingSpeak_new = 0 \<and>
   writeFields (answer 200 ''1'') 12345 ''KEY'' ThingSpeak_new = (Inr (- 210), ThingSpeak_new, [])"
proof -
  have 1: "length (nextWriteField ThingSpeak_new) = 8"
    by (simp add: ThingSpeak_new_eq)
  have 2: "\<not> any_staged ThingSpeak_new"
    by (simp add: ThingSpeak_new_eq any_staged_def)
  show ?thesis
    using nothing_staged_no_request [OF 1 2, of "answer 200 ''1''" 12345 "''KEY''"] 1 2
    by simp
qed

subsection \<open>The result of a write\<close>

text \<open>
  Claim C3. Every write operation that sends a request returns what the response
  interpretation rule prescribes for the response to that request: the status code itself
  when it is not 200, -401 when it is 200 and the body parses to entry ID 0, and 200 when
  it is 200 and the body parses to another entry ID. This holds for \<^verbatim>\<open>writeRaw\<close>, for
  \<^verbatim>\<open>writeFields\<close> when the content length is not 0, and for \<^verbatim>\<open>writeField\<close> with a
  valid index and value.
\<close>

theorem write_result_rule:
  "spec_write_result (send (update_request writeAPIKey (postMessage @ ''&headers=false'')))
     (fst (writeRaw send channelNumber postMessage writeAPIKey ts)) \<and>
   (getWriteFieldsContentLength ts \<noteq> 0 \<longrightarrow>
      spec_write_result (send (update_request writeAPIKey (writeFieldsBody ts)))
        (fst (writeFields send channelNumber writeAPIKey ts))) \<and>
   (1 \<le> field \<and> field \<le> 8 \<and> length val \<le> 255 \<longrightarrow>
      spec_write_result
        (send (update_request writeAPIKey
                 (''field'' @ to_string (int field) @ ''='' @ val @ ''&headers=false'')))
        (fst (writeField send channelNumber field val writeAPIKey ts)))"
  by (auto simp: spec_write_result_def writeRaw_def writeFields_def writeField_def Let_def
      split: sum.splits)

text \<open>
  Status 404 comes back as 404, status 200 with body \<^verbatim>\<open>0\<close> as -401, status 200 with
  body \<^verbatim>\<open>12345\<close> as 200, and a negative status as itself.
\<close>

theorem write_result_rule_witness:
  "fst (writeRaw (answer 404 '''') 12345 ''field1=7'' ''KEY'' staged_example) = Inr 404 \<and>
   fst (writeRaw (answer 200 ''0'') 12345 ''field1=7'' ''KEY'' staged_example) = Inr (- 401) \<and>
   fst (writeRaw (answer 200 ''12345'') 12345 ''field1=7'' ''KEY'' staged_example) = Inr 200 \<and>
   fst (writeFields (answer 404 '''') 12345 ''KEY'' staged_example) = Inr 404 \<and>
   fst (writeFields (answer 200 ''0'') 12345 ''KEY'' staged_example) = Inr (- 401) \<and>
   fst (writeFields (answer 200 ''12345'') 12345 ''KEY'' staged_example) = Inr 200 \<and>
   fst (writeField (answer (- 301) '''') 12345 8 ''7'' ''KEY'' staged_example) = Inr (- 301)"
  using write_result_rule [of "answer 404 ''''" "''KEY''" "''field1=7''" 12345 staged_example 8 "''7''"]
    write_result_rule [of "answer 200 ''0''" "''KEY''" "''field1=7''" 12345 staged_example 8 "''7''"]
    write_result_rule [of "answer 200 ''12345''" "''KEY''" "''field1=7''" 12345 staged_example 8 "''7''"]
    write_result_rule [of "answer (- 301) ''''" "''KEY''" "''field1=7''" 12345 staged_example 8 "''7''"]
  by (simp add: spec_write_result_def answer_def stoi_0 stoi_12345 staged_example_len)

subsection \<open>Clearing the pending update\<close>

text \<open>
  Claim C2 asks that every write operation clears the pending update once it has reached
  the transport. \<^verbatim>\<open>writeFields\<close> does (\<open>writeFields_clears\<close>). \<^verbatim>\<open>writeRaw\<close> does not when
  the status is not 200: with fields 1 and 2 staged and a transport that answers 404, it
  returns 404 and leaves the object as it was, and the content length afterwards is 34,
  not 0.
\<close>

theorem writeRaw_error_keeps_buffer:
  "writeRaw (answer 404 '''') 12345 ''field3=7'' ''KEY'' staged_example =
     (Inr 404, staged_example, [update_request ''KEY'' ''field3=7&headers=false'']) \<and>
   getWriteFieldsContentLength
     (fst (snd (writeRaw (answer 404 '''') 12345 ''field3=7'' ''KEY'' staged_example))) = 34"
  by (simp add: writeRaw_def answer_def staged_example_len)

text \<open>
  Claim C7, as amended. \<^verbatim>\<open>writeRaw\<close> sends exactly one request, the update request whose
  body string is the given message followed by \<^verbatim>\<open>&headers=false\<close> (sent in full when the
  message has no zero byte); its result does not depend on the pending update; and when
  the status is 200 and the body parses to an entry ID, the object it leaves is the one
  \<^verbatim>\<open>resetWriteFields\<close> yields: the pending update is cleared.
\<close>

theorem writeRaw_frame:
  "snd (snd (writeRaw send channelNumber postMessage writeAPIKey ts)) =
     [update_request writeAPIKey (postMessage @ ''&headers=false'')] \<and>
   (CHR 0x00 \<notin> set postMessage \<longrightarrow>
      req_body (update_request writeAPIKey (postMessage @ ''&headers=false'')) =
        postMessage @ ''&headers=false'') \<and>
   fst (writeRaw send channelNumber postMessage writeAPIKey ts) =
     fst (writeRaw send channelNumber postMessage writeAPIKey ts') \<and>
   (status_code (send (update_request writeAPIKey (postMessage @ ''&headers=false''))) = 200 \<and>
    stoi (body_as_string (send (update_request writeAPIKey (postMessage @ ''&headers=false'')))) =
      Inr entryID \<longrightarrow>
      fst (snd (writeRaw send channelNumber postMessage writeAPIKey ts)) = resetWriteFields ts)"
  by (auto simp: writeRaw_def Let_def update_request_def c_str_def takeWhile_eq_all_conv
      split: sum.splits)

text \<open>
  With fields 1 and 2 staged and a transport that answers 200 with body \<^verbatim>\<open>17\<close>, the
  request carries \<^verbatim>\<open>field3=7&headers=false\<close> and the object is left as a fresh one.
\<close>

theorem writeRaw_frame_witness:
  "snd (snd (writeRaw (answer 200 ''17'') 12345 ''field3=7'' ''KEY'' staged_example)) =
     [update_request ''KEY'' ''field3=7&headers=false''] \<and>
   req_body (update_request ''KEY'' ''field3=7&headers=false'') = ''field3=7&headers=false'' \<and>
   fst (snd (writeRaw (answer 200 ''17'') 12345 ''field3=7'' ''KEY'' staged_example)) =
     ThingSpeak_new"
  using writeRaw_frame [of "answer 200 ''17''" 12345 "''field3=7''" "''KEY''" staged_example
      staged_example 17]
  by (simp add: answer_def reset_staged_example stoi_def c_str_def isspace_def isdigit_def
      digits_value_def)

text \<open>
  The claim as first stated has the staged values the same after \<^verbatim>\<open>writeRaw\<close> as before.
  In the example above fields 1 and 2 are staged before the call and empty after it.
\<close>

theorem writeRaw_clears_counterexample:
  "fst (snd (writeRaw (answer 200 ''17'') 12345 ''field3=7'' ''KEY'' staged_example)) \<noteq>
     staged_example \<and>
   nextWriteField (fst (snd (writeRaw (answer 200 ''17'') 12345 ''field3=7'' ''KEY'' staged_example))) =
     [[], [], [], [], [], [], [], []] \<and>
   nextWriteField staged_example = [''10'', ''abc'', [], [], [], [], [], []]"
  unfolding writeRaw_example_state
  by (simp add: staged_example_eq ThingSpeak_new_eq)

subsection \<open>The result of a read\<close>

text \<open>
  The read operations that return text and send a request (\<^verbatim>\<open>readRaw\<close>,
  \<^verbatim>\<open>readStringField\<close> with a valid index, \<^verbatim>\<open>readStatus\<close>, \<^verbatim>\<open>readCreatedAt\<close>) store the
  status code of the response as the last read status and return the empty string when
  that status is not 200, so text is returned only with status 200; with status 200
  \<^verbatim>\<open>readRaw\<close> returns the text of the response body. These four are total functions to a
  text: none of them raises.
\<close>

lemma read_result_rule:
  "spec_read_result (send (read_request channelNumber URLSuffix readAPIKey))
     (readRaw send channelNumber URLSuffix readAPIKey ts) \<and>
   (status_code (send (read_request channelNumber URLSuffix readAPIKey)) = 200 \<longrightarrow>
      fst (readRaw send channelNumber URLSuffix readAPIKey ts) =
        c_str (body_as_string (send (read_request channelNumber URLSuffix readAPIKey)))) \<and>
   (1 \<le> field \<and> field \<le> 8 \<longrightarrow>
      spec_read_result
        (send (read_request channelNumber (''/fields/'' @ to_string (int field) @ ''/last'') readAPIKey))
        (readStringField send channelNumber field readAPIKey ts)) \<and>
   spec_read_result (send (read_request channelNumber ''/feeds/last.txt?status=true'' readAPIKey))
     (readStatus send channelNumber readAPIKey ts) \<and>
   spec_read_result (send (read_request channelNumber ''/feeds/last.txt'' readAPIKey))
     (readCreatedAt send channelNumber readAPIKey ts)"
  by (auto simp: spec_read_result_def readRaw_def readStringField_def readStatus_def
      readCreatedAt_def getLastReadStatus_def Let_def)

text \<open>
  Status 404 leaves the empty string and 404 as the last read status; status 200 with
  body \<^verbatim>\<open>42\<close> returns \<^verbatim>\<open>42\<close>; a negative status is stored as it is.
\<close>

lemma read_result_rule_examples:
  "readRaw (answer 404 ''not found'') 12345 ''/feeds/last.txt'' None ThingSpeak_new =
     ('''', ThingSpeak_new\<lparr>lastReadStatus := 404\<rparr>, [read_request 12345 ''/feeds/last.txt'' None]) \<and>
   fst (readRaw (answer 200 ''42'') 12345 ''/feeds/last.txt'' None ThingSpeak_new) = ''42'' \<and>
   fst (readStringField (answer (- 301) ''x'') 12345 1 None ThingSpeak_new) = '''' \<and>
   lastReadStatus (fst (snd (readStringField (answer (- 301) ''x'') 12345 1 None ThingSpeak_new))) = - 301 \<and>
   fst (readStatus (answer 400 ''x'') 12345 None ThingSpeak_new) = '''' \<and>
   fst (readCreatedAt (answer 400 ''x'') 12345 None ThingSpeak_new) = ''''"
  using read_result_rule [of "answer 404 ''not found''" 12345 "''/feeds/last.txt''" None ThingSpeak_new 1]
    read_result_rule [of "answer 200 ''42''" 12345 "''/feeds/last.txt''" None ThingSpeak_new 1]
    read_result_rule [of "answer (- 301) ''x''" 12345 "''/feeds/last.txt''" None ThingSpeak_new 1]
    read_result_rule [of "answer 400 ''x''" 12345 "''/feeds/last.txt''" None ThingSpeak_new 1]
  by (auto simp: spec_read_result_def answer_def c_str_def readRaw_def split: prod.splits)

text \<open>
  The numeric readers hand the text of \<^verbatim>\<open>readStringField\<close> to \<^verbatim>\<open>stoi\<close>. Whenever that
  text is empty, after a status other than 200 and also after an invalid field index,
  \<^verbatim>\<open>stoi\<close> raises \<^verbatim>\<open>std::invalid_argument\<close>, for every transport, channel, key and
  state.
\<close>

lemma numeric_read_raises:
  assumes "field < 1 \<or> field > 8 \<or>
           status_code (send (read_request channelNumber
             (''/fields/'' @ to_string (int field) @ ''/last'') readAPIKey)) \<noteq> 200"
  shows "fst (readLongField send channelNumber field readAPIKey ts) = Inl invalid_argument"
    and "fst (readIntField send channelNumber field readAPIKey ts) = Inl invalid_argument"
  using assms
  by (auto simp: readIntField_def readLongField_def readStringField_def readRaw_def Let_def
      stoi_empty)

text \<open>
  Claim C9 asks that every read operation stores the status code of the response as the
  last read status and, when that status is not 200, returns an empty result and never
  throws. The operations that return text do (\<open>read_result_rule\<close>). \<^verbatim>\<open>readLongField\<close>
  and \<^verbatim>\<open>readIntField\<close> do not: for field 1 and a transport that answers 404 they store
  404, send their one request, and then raise \<^verbatim>\<open>std::invalid_argument\<close> where their
  documentation promises 0.
\<close>

theorem numeric_read_raises_on_404:
  "readLongField (answer 404 '''') 12345 1 None ThingSpeak_new =
     (Inl invalid_argument, ThingSpeak_new\<lparr>lastReadStatus := 404\<rparr>,
      [read_request 12345 ''/fields/1/last'' None]) \<and>
   readIntField (answer 404 '''') 12345 1 None ThingSpeak_new =
     (Inl invalid_argument, ThingSpeak_new\<lparr>lastReadStatus := 404\<rparr>,
      [read_request 12345 ''/fields/1/last'' None])"
  by (simp add: readIntField_def readLongField_def readStringField_def readRaw_def Let_def
      answer_def stoi_empty to_string_def decimal_digit digit_char_def)

subsection \<open>Extracting a value by its key\<close>

lemma find_at_first:
  assumes "prefix pat (drop k s)" and "k \<le> length s" and "\<forall>j<k. \<not> prefix pat (drop j s)"
  shows "find_at pat s p = Some (p + k)"
  using assms
proof (induction s arbitrary: p k)
  case Nil
  then show ?case by simp
next
  case (Cons c s)
  show ?case
  proof (cases k)
    case 0
    then show ?thesis using Cons.prems(1) by simp
  next
    case (Suc k')
    then have "\<not> prefix pat (c # s)"
      using Cons.prems(3) by force
    moreover have "find_at pat s (Suc p) = Some (Suc p + k')"
    proof (rule Cons.IH)
      show "prefix pat (drop k' s)" using Cons.prems(1) Suc by simp
      show "k' \<le> length s" using Cons.prems(2) Suc by simp
      show "\<forall>j<k'. \<not> prefix pat (drop j s)"
      proof (intro allI impI)
        fix j assume "j < k'"
        then have "Suc j < k" using Suc by simp
        then have "\<not> prefix pat (drop (Suc j) (c # s))" using Cons.prems(3) by blast
        then show "\<not> prefix pat (drop j s)" by simp
      qed
    qed
    ultimately show ?thesis using Suc by simp
  qed
qed

lemma find_at_none:
  assumes "\<forall>j\<le>length s. \<not> prefix pat (drop j s)"
  shows "find_at pat s p = None"
  using assms
proof (induction s arbitrary: p)
  case Nil
  then show ?case by auto
next
  case (Cons c s)
  have "\<not> prefix pat (c # s)"
    using Cons.prems by force
  moreover have "find_at pat s (Suc p) = None"
  proof (rule Cons.IH, intro allI impI)
    fix j assume "j \<le> length s"
    then have "\<not> prefix pat (drop (Suc j) (c # s))" using Cons.prems by auto
    then show "\<not> prefix pat (drop j s)" by simp
  qed
  ultimately show ?case by simp
qed

lemma prefix_drop_sublist:
  assumes "prefix pat (drop j t)"
  shows "sublist pat t"
proof -
  from assms obtain zs where "drop j t = pat @ zs"
    by (auto simp: prefix_def)
  then have "t = take j t @ pat @ zs"
    by (metis append_take_drop_id)
  then show ?thesis
    unfolding sublist_def by blast
qed

lemma no_quote_no_prefix_all:
  assumes "q \<notin> set r"
  shows "\<not> prefix [q] (drop j r)"
proof
  assume "prefix [q] (drop j r)"
  then obtain zs where "drop j r = q # zs"
    by (auto simp: prefix_def)
  then have "q \<in> set (drop j r)"
    by simp
  then show False
    using assms by (auto dest: in_set_dropD)
qed

lemma no_quote_no_prefix:
  assumes "q \<notin> set v" and "j < length v"
  shows "\<not> prefix [q] (drop j (v @ r))"
proof
  assume "prefix [q] (drop j (v @ r))"
  then obtain zs where "drop j (v @ r) = q # zs"
    by (auto simp: prefix_def)
  moreover have "drop j (v @ r) = (v ! j) # drop (Suc j) v @ r"
    using assms(2) by (simp add: Cons_nth_drop_Suc)
  ultimately have "v ! j = q"
    by simp
  then show False
    using assms by (metis nth_mem)
qed

lemma searchPhrase_nonempty: "searchPhrase key \<noteq> []"
  by (simp add: searchPhrase_def)

lemma getJSON_found:
  assumes t: "t = pre @ searchPhrase key @ rest"
    and first: "\<forall>j<length pre. \<not> prefix (searchPhrase key) (drop j t)"
  shows "getJSONValueByKey t key =
           (case find_str t [CHR 0x22] (length pre + length (searchPhrase key)) of
              None \<Rightarrow> ''''
            | Some toPosition \<Rightarrow>
                drop (length pre + length (searchPhrase key)) (take toPosition t))"
proof -
  have "prefix (searchPhrase key) (drop (length pre) t)"
    by (simp add: t)
  moreover have "length pre \<le> length t"
    by (simp add: t)
  ultimately have "find_at (searchPhrase key) t 0 = Some (0 + length pre)"
    using first by (rule find_at_first)
  then have found: "find_str t (searchPhrase key) 0 = Some (length pre)"
    by (simp add: find_str_def)
  have ne: "t \<noteq> []"
    using t searchPhrase_nonempty by simp
  show ?thesis
    unfolding getJSONValueByKey_def Let_def found
    using ne by (simp only: length_0_conv if_False option.case)
qed

lemma getJSON_value:
  assumes t: "t = pre @ searchPhrase key @ v @ [CHR 0x22] @ rest"
    and first: "\<forall>j<length pre. \<not> prefix (searchPhrase key) (drop j t)"
    and nq: "CHR 0x22 \<notin> set v"
  shows "getJSONValueByKey t key = v"
proof -
  let ?from = "length pre + length (searchPhrase key)"
  have t': "t = pre @ searchPhrase key @ (v @ [CHR 0x22] @ rest)"
    using t by simp
  have tail: "drop ?from t = v @ CHR 0x22 # rest"
    by (simp add: t)
  have "find_at [CHR 0x22] (v @ CHR 0x22 # rest) ?from = Some (?from + length v)"
  proof (rule find_at_first)
    show "prefix [CHR 0x22] (drop (length v) (v @ CHR 0x22 # rest))" by simp
    show "length v \<le> length (v @ CHR 0x22 # rest)" by simp
    show "\<forall>j<length v. \<not> prefix [CHR 0x22] (drop j (v @ CHR 0x22 # rest))"
      by (intro allI impI) (rule no_quote_no_prefix [OF nq])
  qed
  moreover have "?from \<le> length t"
    by (simp add: t)
  ultimately have to: "find_str t [CHR 0x22] ?from = Some (?from + length v)"
    by (simp add: find_str_def tail)
  have kept: "take (?from + length v) t = pre @ searchPhrase key @ v"
    by (simp add: t)
  have "getJSONValueByKey t key = drop ?from (take (?from + length v) t)"
    unfolding getJSON_found [OF t' first] to by (simp only: option.case)
  also have "\<dots> = v"
    unfolding kept by simp
  finally show ?thesis .
qed

lemma getJSON_absent:
  assumes "\<not> sublist (searchPhrase key) t"
  shows "getJSONValueByKey t key = ''''"
proof -
  have "\<forall>j\<le>length t. \<not> prefix (searchPhrase key) (drop j t)"
    using assms by (auto dest: prefix_drop_sublist)
  then have "find_at (searchPhrase key) t 0 = None"
    by (rule find_at_none)
  then have absent: "find_str t (searchPhrase key) 0 = None"
    by (simp add: find_str_def)
  show ?thesis
    unfolding getJSONValueByKey_def Let_def absent by (simp only: option.case if_cancel)
qed

lemma getJSON_unterminated:
  assumes t: "t = pre @ searchPhrase key @ rest"
    and first: "\<forall>j<length pre. \<not> prefix (searchPhrase key) (drop j t)"
    and nq: "CHR 0x22 \<notin> set rest"
  shows "getJSONValueByKey t key = ''''"
proof -
  let ?from = "length pre + length (searchPhrase key)"
  have tail: "drop ?from t = rest"
    by (simp add: t)
  have "\<forall>j\<le>length rest. \<not> prefix [CHR 0x22] (drop j rest)"
    by (intro allI impI) (rule no_quote_no_prefix_all [OF nq])
  then have "find_at [CHR 0x22] rest ?from = None"
    by (rule find_at_none)
  then have "find_str t [CHR 0x22] ?from = None"
    by (simp add: find_str_def tail)
  then show ?thesis
    unfolding getJSON_found [OF t first] by (simp only: option.case)
qed

lemma json_two_keys_split:
  \<open>json_two_keys = ''{'' @ searchPhrase ''status'' @ ''ok'' @ [CHR 0x22] @ '',"x":"y"}''\<close>
  by (simp add: json_two_keys_def searchPhrase_def)

lemma json_unterminated_split:
  \<open>json_unterminated = ''{'' @ searchPhrase ''status'' @ ''ok''\<close>
  by (simp add: json_unterminated_def searchPhrase_def)

lemma json_other_key_no_status: "\<not> sublist (searchPhrase ''status'') json_other_key"
  by (simp add: json_other_key_def searchPhrase_def sublist_Cons_right)

lemma json_two_keys_first:
  "\<forall>j<length ''{''. \<not> prefix (searchPhrase ''status'') (drop j json_two_keys)"
  by (simp add: json_two_keys_def searchPhrase_def)

lemma json_unterminated_first:
  "\<forall>j<length ''{''. \<not> prefix (searchPhrase ''status'') (drop j json_unterminated)"
  by (simp add: json_unterminated_def searchPhrase_def)

text \<open>
  Claim C8. For every text \<open>t\<close> and key, with the search phrase being the key between
  double quotes followed by a colon and a double quote: when the first occurrence of the
  phrase in \<open>t\<close> is followed by a value \<open>v\<close> without a double quote and then a double
  quote, \<^verbatim>\<open>getJSONValueByKey\<close> returns \<open>v\<close>; it returns the empty string for the empty
  text, when the phrase does not occur in \<open>t\<close>, and when no double quote follows the
  first occurrence of the phrase.
\<close>

theorem getJSONValueByKey_spec:
  "(t = pre @ searchPhrase key @ v @ [CHR 0x22] @ rest \<and>
    (\<forall>j<length pre. \<not> prefix (searchPhrase key) (drop j t)) \<and> CHR 0x22 \<notin> set v \<longrightarrow>
      getJSONValueByKey t key = v) \<and>
   getJSONValueByKey '''' key = '''' \<and>
   (\<not> sublist (searchPhrase key) t \<longrightarrow> getJSONValueByKey t key = '''') \<and>
   (t = pre @ searchPhrase key @ rest \<and>
    (\<forall>j<length pre. \<not> prefix (searchPhrase key) (drop j t)) \<and> CHR 0x22 \<notin> set rest \<longrightarrow>
      getJSONValueByKey t key = '''')"
proof (intro conjI impI)
  assume a: "t = pre @ searchPhrase key @ v @ [CHR 0x22] @ rest \<and>
    (\<forall>j<length pre. \<not> prefix (searchPhrase key) (drop j t)) \<and> CHR 0x22 \<notin> set v"
  show "getJSONValueByKey t key = v"
    by (rule getJSON_value [OF conjunct1 [OF a] conjunct1 [OF conjunct2 [OF a]]
          conjunct2 [OF conjunct2 [OF a]]])
next
  show "getJSONValueByKey '''' key = ''''"
    by (simp add: getJSONValueByKey_def)
next
  assume "\<not> sublist (searchPhrase key) t"
  then show "getJSONValueByKey t key = ''''"
    by (rule getJSON_absent)
next
  assume a: "t = pre @ searchPhrase key @ rest \<and>
    (\<forall>j<length pre. \<not> prefix (searchPhrase key) (drop j t)) \<and> CHR 0x22 \<notin> set rest"
  show "getJSONValueByKey t key = ''''"
    by (rule getJSON_unterminated [OF conjunct1 [OF a] conjunct1 [OF conjunct2 [OF a]]
          conjunct2 [OF conjunct2 [OF a]]])
qed

text \<open>
  The three texts of the specification: with the key, without it, and with a value that
  is not closed.
\<close>

theorem getJSONValueByKey_spec_witness:
  "getJSONValueByKey json_two_keys ''status'' = ''ok'' \<and>
   getJSONValueByKey json_other_key ''status'' = '''' \<and>
   getJSONValueByKey json_unterminated ''status'' = ''''"
proof (intro conjI)
  have quote: "CHR 0x22 \<notin> set ''ok''"
    by simp
  show "getJSONValueByKey json_two_keys ''status'' = ''ok''"
    by (rule mp [OF conjunct1 [OF getJSONValueByKey_spec]], intro conjI)
       (rule json_two_keys_split json_two_keys_first quote)+
  show "getJSONValueByKey json_other_key ''status'' = ''''"
    by (rule mp [OF conjunct1 [OF conjunct2 [OF conjunct2 [OF getJSONValueByKey_spec]]]])
       (rule json_other_key_no_status)
  show "getJSONValueByKey json_unterminated ''status'' = ''''"
    by (rule mp [OF conjunct2 [OF conjunct2 [OF conjunct2 [OF getJSONValueByKey_spec]]]],
        intro conjI)
       (rule json_unterminated_split json_unterminated_first quote)+
qed

subsection \<open>Reading a field with an invalid index\<close>

text \<open>
  Claim C10. For a field index below 1 or above 8, \<^verbatim>\<open>readStringField\<close> returns the empty
  string, sends no request, and changes nothing of the object but the last read status,
  which it sets to -201; \<^verbatim>\<open>getLastReadStatus\<close> then returns -201.
\<close>

theorem readStringField_invalid_field:
  assumes "field < 1 \<or> field > 8"
  shows "readStringField send channelNumber field readAPIKey ts =
           ('''', ts\<lparr>lastReadStatus := - 201\<rparr>, []) \<and>
         getLastReadStatus (fst (snd (readStringField send channelNumber field readAPIKey ts))) = - 201"
  using assms by (auto simp: readStringField_def getLastReadStatus_def)

text \<open>Indices 9 and 0, with and without a read key.\<close>

theorem readStringField_invalid_field_witness:
  "readStringField (answer 200 ''5'') 12345 9 None ThingSpeak_new =
     ('''', ThingSpeak_new\<lparr>lastReadStatus := - 201\<rparr>, []) \<and>
   getLastReadStatus (fst (snd (readStringField (answer 200 ''5'') 12345 0 (Some ''KEY'') ThingSpeak_new))) = - 201"
  using readStringField_invalid_field [of 9 "answer 200 ''5''" 12345 None ThingSpeak_new]
    readStringField_invalid_field [of 0 "answer 200 ''5''" 12345 "Some ''KEY''" ThingSpeak_new]
  by (simp add: getLastReadStatus_def)

end
